theory Spec2Isabelle
  imports Main
begin

section \<open>Integers and containers\<close>

text \<open>
  The program computes with C++ \<^verbatim>\<open>int\<close>. Signed overflow is undefined in C++, so the
  model computes in \<^typ>\<open>int\<close> and is exact for every execution in which no stored value
  leaves the range \<open>INT_MIN .. INT_MAX\<close>. The two limits appear in the program as the
  start values of its running minima and maxima, and they are kept here.
  Sizes and loop counters are \<^typ>\<open>nat\<close> (the program keeps \<^verbatim>\<open>roi.size() + 2\<close> in an
  \<^verbatim>\<open>int\<close>; the model assumes that this sum is representable).
\<close>

definition INT_MAX :: int where
  "INT_MAX = 2147483647"

definition INT_MIN :: int where
  "INT_MIN = - 2147483648"

definition fits :: "int \<Rightarrow> bool" where
  "fits v \<longleftrightarrow> INT_MIN \<le> v \<and> v \<le> INT_MAX"

text \<open>
  \<^verbatim>\<open>std::vector::operator[]\<close> does not check its index; reading past the end is
  undefined. The model makes the check explicit: \<open>at xs i\<close> is \<open>None\<close> there.
\<close>

definition at :: "'a list \<Rightarrow> nat \<Rightarrow> 'a option" where
  "at xs i = (if i < length xs then Some (xs ! i) else None)"

section \<open>Vec, Point, Rect\<close>

datatype Vec = Vec (x: int) (y: int)

text \<open>
  \<^verbatim>\<open>Vec::Normal\<close> and \<^verbatim>\<open>Vec::operator*\<close> (the dot product). The negation, the products
  and the sum are the program's where they do not overflow (\<open>no_overflow\<close> below).
\<close>

definition Normal :: "Vec \<Rightarrow> Vec" where
  "Normal v = Vec (Vec.y v) (- Vec.x v)"

definition Vec_mul :: "Vec \<Rightarrow> Vec \<Rightarrow> int" where
  "Vec_mul v rhs = Vec.x v * Vec.x rhs + Vec.y v * Vec.y rhs"

datatype Point = Point (x: int) (y: int)

text \<open>
  \<^verbatim>\<open>Point::operator-\<close> and \<^verbatim>\<open>Point::toVec\<close>. The differences are the program's where
  they do not overflow (\<open>no_overflow\<close> below).
\<close>

definition Point_minus :: "Point \<Rightarrow> Point \<Rightarrow> Vec" where
  "Point_minus p rhs = Vec (Point.x p - Point.x rhs) (Point.y p - Point.y rhs)"

definition toVec :: "Point \<Rightarrow> Vec" where
  "toVec p = Vec (Point.x p) (Point.y p)"

record Rect =
  left :: int
  top :: int
  width :: int
  height :: int

text \<open>
  \<^verbatim>\<open>rect_to_points\<close>. The two sums are the program's \<^verbatim>\<open>int\<close> sums where they do not
  overflow; the theorems about them say so.
\<close>

definition rect_to_points :: "Rect \<Rightarrow> Point list" where
  "rect_to_points rect =
     [Point (left rect) (top rect),
      Point (left rect + width rect) (top rect),
      Point (left rect + width rect) (top rect + height rect),
      Point (left rect) (top rect + height rect)]"

section \<open>collision_detect\<close>

text \<open>
  The result of a call records what the call printed, which of the four \<^verbatim>\<open>return\<close>
  statements it left through, and the value returned there.
\<close>

datatype exit_point =
    RoiTooSmall
  | BoxesDisjoint
  | SeparatingAxis nat
  | NoSeparatingAxis

record outcome =
  stdout :: "string list"
  exit_at :: exit_point
  retval :: bool

text \<open>The bounding box \<open>(x1, y1, x2, y2)\<close> of the ROI: the first loop of the function.\<close>

definition roi_bbox :: "Point list \<Rightarrow> int \<times> int \<times> int \<times> int" where
  "roi_bbox roi =
     foldl (\<lambda>(x1, y1, x2, y2) p.
              (min x1 (Point.x p), min y1 (Point.y p), max x2 (Point.x p), max y2 (Point.y p)))
       (INT_MAX, INT_MAX, INT_MIN, INT_MIN) roi"

text \<open>
  The condition of the early return after the bounding box. Its two sums are exact where
  \<open>left + width\<close> and \<open>top + height\<close> do not overflow.
\<close>

definition boxes_disjoint :: "Rect \<Rightarrow> int \<times> int \<times> int \<times> int \<Rightarrow> bool" where
  "boxes_disjoint rect box =
     (case box of (x1, y1, x2, y2) \<Rightarrow>
        left rect > x2 \<or> left rect + width rect < x1 \<or>
        top rect > y2 \<or> top rect + height rect < y1)"

definition project_cnt :: "Point list \<Rightarrow> nat" where
  "project_cnt roi = length roi + 2"

text \<open>The two end points \<open>p0\<close>, \<open>p1\<close> of the edge that iteration \<open>i\<close> takes its axis from.\<close>

definition edge_points :: "Point list \<Rightarrow> Point list \<Rightarrow> nat \<Rightarrow> (Point \<times> Point) option" where
  "edge_points roi rec_points i =
     (if i < length roi then
        (case at roi i of
           None \<Rightarrow> None
         | Some p0 \<Rightarrow>
             (case at roi ((i + 1) mod length roi) of
                None \<Rightarrow> None
              | Some p1 \<Rightarrow> Some (p0, p1)))
      else
        (let idx = project_cnt roi - length roi in
         case at rec_points idx of
           None \<Rightarrow> None
         | Some p0 \<Rightarrow>
             (case at rec_points (idx + 1) of
                None \<Rightarrow> None
              | Some p1 \<Rightarrow> Some (p0, p1))))"

text \<open>The axis of iteration \<open>i\<close>: the normal of that edge.\<close>

definition axis :: "Point list \<Rightarrow> Point list \<Rightarrow> nat \<Rightarrow> Vec option" where
  "axis roi rec_points i =
     (case edge_points roi rec_points i of
        None \<Rightarrow> None
      | Some (p0, p1) \<Rightarrow> Some (Normal (Point_minus p1 p0)))"

text \<open>
  The running minimum and maximum of the projections of a point list on an axis: the two
  inner loops, which differ in the list only.
\<close>

definition project :: "Vec \<Rightarrow> Point list \<Rightarrow> int \<times> int" where
  "project normal ps =
     foldl (\<lambda>(pj_min, pj_max) p.
              (let len = Vec_mul normal (toVec p) in (min pj_min len, max pj_max len)))
       (INT_MAX, INT_MIN) ps"

text \<open>The test that ends an iteration: the axis separates the two projection intervals.\<close>

definition separating :: "Vec \<Rightarrow> Point list \<Rightarrow> Point list \<Rightarrow> bool" where
  "separating normal roi rec_points =
     (case project normal roi of (roi_pj_min, roi_pj_max) \<Rightarrow>
      case project normal rec_points of (rec_pj_min, rec_pj_max) \<Rightarrow>
        rec_pj_min > roi_pj_max \<or> rec_pj_max < roi_pj_min)"

text \<open>The loop over the axes, from iteration \<open>i\<close> on.\<close>

function sat_loop :: "Point list \<Rightarrow> Point list \<Rightarrow> nat \<Rightarrow> outcome option" where
  "sat_loop roi rec_points i =
     (if i < project_cnt roi then
        (case axis roi rec_points i of
           None \<Rightarrow> None
         | Some normal \<Rightarrow>
             if separating normal roi rec_points
             then Some \<lparr>stdout = [], exit_at = SeparatingAxis i, retval = False\<rparr>
             else sat_loop roi rec_points (Suc i))
      else Some \<lparr>stdout = [], exit_at = NoSeparatingAxis, retval = True\<rparr>)"
  by pat_completeness auto
termination
  by (relation "measure (\<lambda>(roi, rec_points, i). project_cnt roi - i)") auto

declare sat_loop.simps [simp del]

definition collision_detect :: "Point list \<Rightarrow> Rect \<Rightarrow> outcome option" where
  "collision_detect roi rect =
     (if length roi < 3 then
        Some \<lparr>stdout = [''roi points must >= 3\<newline>''], exit_at = RoiTooSmall, retval = False\<rparr>
      else if boxes_disjoint rect (roi_bbox roi) then
        Some \<lparr>stdout = [], exit_at = BoxesDisjoint, retval = False\<rparr>
      else sat_loop roi (rect_to_points rect) 0)"

section \<open>The program's own test data\<close>

text \<open>The ROI and the four rectangles that \<^verbatim>\<open>main\<close> builds.\<close>

definition main_roi :: "Point list" where
  "main_roi = [Point 200 0, Point 200 200, Point 0 200]"

definition rect1 :: Rect where
  "rect1 = \<lparr>left = 0, top = 0, width = 100, height = 100\<rparr>"

definition rect2 :: Rect where
  "rect2 = \<lparr>left = 50, top = 50, width = 40, height = 40\<rparr>"

definition rect3 :: Rect where
  "rect3 = \<lparr>left = 201, top = 101, width = 50, height = 50\<rparr>"

definition rect4 :: Rect where
  "rect4 = \<lparr>left = 180, top = 100, width = 50, height = 50\<rparr>"

section \<open>Two variants of the function\<close>

text \<open>
  The function with its final loop iteration dropped: the loop stops one step earlier,
  everything else is as in \<open>sat_loop\<close> and \<open>collision_detect\<close>.
\<close>

function sat_loop_short :: "Point list \<Rightarrow> Point list \<Rightarrow> nat \<Rightarrow> outcome option" where
  "sat_loop_short roi rec_points i =
     (if i < project_cnt roi - 1 then
        (case axis roi rec_points i of
           None \<Rightarrow> None
         | Some normal \<Rightarrow>
             if separating normal roi rec_points
             then Some \<lparr>stdout = [], exit_at = SeparatingAxis i, retval = False\<rparr>
             else sat_loop_short roi rec_points (Suc i))
      else Some \<lparr>stdout = [], exit_at = NoSeparatingAxis, retval = True\<rparr>)"
  by pat_completeness auto
termination
  by (relation "measure (\<lambda>(roi, rec_points, i). project_cnt roi - 1 - i)") auto

declare sat_loop_short.simps [simp del]

definition collision_detect_short :: "Point list \<Rightarrow> Rect \<Rightarrow> outcome option" where
  "collision_detect_short roi rect =
     (if length roi < 3 then
        Some \<lparr>stdout = [''roi points must >= 3\<newline>''], exit_at = RoiTooSmall, retval = False\<rparr>
      else if boxes_disjoint rect (roi_bbox roi) then
        Some \<lparr>stdout = [], exit_at = BoxesDisjoint, retval = False\<rparr>
      else sat_loop_short roi (rect_to_points rect) 0)"

text \<open>The function with the early return after the bounding box removed.\<close>

definition collision_detect_no_prefilter :: "Point list \<Rightarrow> Rect \<Rightarrow> outcome option" where
  "collision_detect_no_prefilter roi rect =
     (if length roi < 3 then
        Some \<lparr>stdout = [''roi points must >= 3\<newline>''], exit_at = RoiTooSmall, retval = False\<rparr>
      else sat_loop roi (rect_to_points rect) 0)"

section \<open>Representable inputs and runs without overflow\<close>

text \<open>
  Every coordinate the function receives is an \<^verbatim>\<open>int\<close>. A run is free of overflow when
  every value it computes is one too: the two sums of the rectangle, and in every
  iteration the edge vector, its normal, and the products and the sum of each dot product.
\<close>

definition representable :: "Point list \<Rightarrow> Rect \<Rightarrow> bool" where
  "representable roi rect \<longleftrightarrow>
     list_all (\<lambda>p. fits (Point.x p) \<and> fits (Point.y p)) roi \<and>
     fits (left rect) \<and> fits (top rect) \<and> fits (width rect) \<and> fits (height rect)"

definition Vec_fits :: "Vec \<Rightarrow> bool" where
  "Vec_fits v \<longleftrightarrow> fits (Vec.x v) \<and> fits (Vec.y v)"

definition Vec_mul_fits :: "Vec \<Rightarrow> Vec \<Rightarrow> bool" where
  "Vec_mul_fits v rhs \<longleftrightarrow>
     fits (Vec.x v * Vec.x rhs) \<and> fits (Vec.y v * Vec.y rhs) \<and> fits (Vec_mul v rhs)"

definition iteration_fits :: "Point list \<Rightarrow> Point list \<Rightarrow> nat \<Rightarrow> bool" where
  "iteration_fits roi rec_points i =
     (case edge_points roi rec_points i of
        None \<Rightarrow> True
      | Some (p0, p1) \<Rightarrow>
          Vec_fits (Point_minus p1 p0) \<and> Vec_fits (Normal (Point_minus p1 p0)) \<and>
          list_all (\<lambda>p. Vec_mul_fits (Normal (Point_minus p1 p0)) (toVec p)) (roi @ rec_points))"

definition no_overflow :: "Point list \<Rightarrow> Rect \<Rightarrow> bool" where
  "no_overflow roi rect \<longleftrightarrow>
     fits (left rect + width rect) \<and> fits (top rect + height rect) \<and>
     list_all (iteration_fits roi (rect_to_points rect)) [0..<project_cnt roi]"

section \<open>The specification's terms\<close>

text \<open>The projection of a point on an axis.\<close>

definition proj :: "Vec \<Rightarrow> Point \<Rightarrow> int" where
  "proj a p = Vec_mul a (toVec p)"

text \<open>
  The candidate axes as the specification lists them: the normal of every ROI edge, edge
  \<open>i\<close> running from vertex \<open>i\<close> to vertex \<open>(i + 1) mod n\<close>, and then the normals of the
  first two edges of the rectangle.
\<close>

definition candidate_axes :: "Point list \<Rightarrow> Rect \<Rightarrow> Vec list" where
  "candidate_axes roi rect =
     map (\<lambda>i. Normal (Point_minus (roi ! ((i + 1) mod length roi)) (roi ! i))) [0..<length roi] @
     map (\<lambda>i. Normal (Point_minus (rect_to_points rect ! (i + 1)) (rect_to_points rect ! i)))
       [0..<2]"

text \<open>
  The projection interval of a shape on an axis, and strict separation of two intervals,
  in the specification's words: no machine limits are involved.
\<close>

definition interval :: "Vec \<Rightarrow> Point list \<Rightarrow> int \<times> int" where
  "interval normal ps =
     (Min (set (map (\<lambda>p. Vec_mul normal (toVec p)) ps)),
      Max (set (map (\<lambda>p. Vec_mul normal (toVec p)) ps)))"

definition strictly_separates :: "Vec \<Rightarrow> Point list \<Rightarrow> Point list \<Rightarrow> bool" where
  "strictly_separates normal roi rec_points =
     (case interval normal roi of (roi_min, roi_max) \<Rightarrow>
      case interval normal rec_points of (rectangle_min, rectangle_max) \<Rightarrow>
        rectangle_max < roi_min \<or> rectangle_min > roi_max)"

text \<open>
  A convex, consistently wound polygon: the supporting line of every edge keeps all
  vertices on one side, the same side for every edge (\<open>turn\<close> is the cross product of the
  edge with the vector to the vertex, so its sign tells the side), and the vertices are
  not all on one line.
\<close>

definition cross :: "Vec \<Rightarrow> Vec \<Rightarrow> int" where
  "cross v rhs = Vec.x v * Vec.y rhs - Vec.y v * Vec.x rhs"

definition turn :: "Point list \<Rightarrow> nat \<Rightarrow> Point \<Rightarrow> int" where
  "turn roi i p =
     cross (Point_minus (roi ! ((i + 1) mod length roi)) (roi ! i)) (Point_minus p (roi ! i))"

definition convex_polygon :: "Point list \<Rightarrow> bool" where
  "convex_polygon roi \<longleftrightarrow>
     3 \<le> length roi \<and>
     (list_all (\<lambda>i. list_all (\<lambda>p. 0 \<le> turn roi i p) roi) [0..<length roi] \<or>
      list_all (\<lambda>i. list_all (\<lambda>p. turn roi i p \<le> 0) roi) [0..<length roi]) \<and>
     list_ex (\<lambda>i. list_ex (\<lambda>p. turn roi i p \<noteq> 0) roi) [0..<length roi]"

text \<open>
  The position of a point across a direction \<open>d\<close> (its position along \<open>d\<close> is \<open>proj d\<close>).
\<close>

definition across :: "Vec \<Rightarrow> Point \<Rightarrow> int" where
  "across d p = cross d (toVec p)"

text \<open>
  A point that the two closed shapes have in common: a weighted mean of the ROI vertices,
  with natural weights \<open>ws\<close> of sum \<open>W > 0\<close>, that lies in the closed rectangle. The point
  is \<open>(X / W, Y / W)\<close>; the conditions are multiplied by \<open>W\<close>.
\<close>

definition weighted :: "(Point \<Rightarrow> int) \<Rightarrow> nat list \<Rightarrow> Point list \<Rightarrow> int" where
  "weighted f ws ps = sum_list (map (\<lambda>(w, p). int w * f p) (zip ws ps))"

definition common_point :: "nat list \<Rightarrow> Point list \<Rightarrow> Rect \<Rightarrow> bool" where
  "common_point ws roi rect \<longleftrightarrow>
     length ws = length roi \<and> 0 < sum_list ws \<and>
     left rect * int (sum_list ws) \<le> weighted Point.x ws roi \<and>
     weighted Point.x ws roi \<le> (left rect + width rect) * int (sum_list ws) \<and>
     top rect * int (sum_list ws) \<le> weighted Point.y ws roi \<and>
     weighted Point.y ws roi \<le> (top rect + height rect) * int (sum_list ws)"

section \<open>Further test data\<close>

text \<open>A square standing on a corner, and a small rectangle to the right of it.\<close>

definition diamond_roi :: "Point list" where
  "diamond_roi = [Point 0 10, Point 10 0, Point 20 10, Point 10 20]"

definition side_rect :: Rect where
  "side_rect = \<lparr>left = 21, top = 9, width = 1, height = 2\<rparr>"


section \<open>Evaluation\<close>

lemma sat_loop_step:
  "i < project_cnt roi \<Longrightarrow> axis roi rec_points i = Some normal \<Longrightarrow>
   sat_loop roi rec_points i =
     (if separating normal roi rec_points
      then Some \<lparr>stdout = [], exit_at = SeparatingAxis i, retval = False\<rparr>
      else sat_loop roi rec_points (Suc i))"
  by (subst sat_loop.simps) simp

lemma sat_loop_done:
  "\<not> i < project_cnt roi \<Longrightarrow>
   sat_loop roi rec_points i = Some \<lparr>stdout = [], exit_at = NoSeparatingAxis, retval = True\<rparr>"
  by (subst sat_loop.simps) simp

lemma length_rect_to_points: "length (rect_to_points rect) = 4"
  by (simp add: rect_to_points_def)

lemma next_index: "i < n \<Longrightarrow> Suc i mod n < (n::nat)"
  by (metis mod_less_divisor less_nat_zero_code neq0_conv)

lemma edge_points_roi:
  "i < length roi \<Longrightarrow>
   edge_points roi rec_points i = Some (roi ! i, roi ! ((i + 1) mod length roi))"
  by (simp add: edge_points_def at_def next_index)

lemma edge_points_rect:
  "\<not> i < length roi \<Longrightarrow> length rec_points = 4 \<Longrightarrow>
   edge_points roi rec_points i = Some (rec_points ! 2, rec_points ! 3)"
  by (simp add: edge_points_def at_def project_cnt_def)



lemma axis_same_past_roi:
  "\<not> i < length roi \<Longrightarrow> \<not> j < length roi \<Longrightarrow> axis roi rec_points i = axis roi rec_points j"
  by (simp add: axis_def edge_points_def)

lemma Min_insert_min:
  "finite S \<Longrightarrow> Min (insert (min a b) S) = min (a::int) (Min (insert b S))"
  by (cases "S = {}") (simp_all add: min.assoc)

lemma Max_insert_max:
  "finite S \<Longrightarrow> Max (insert (max a b) S) = max (a::int) (Max (insert b S))"
  by (cases "S = {}") (simp_all add: max.assoc)

lemma foldl_min_max:
  "foldl (\<lambda>(mn, mx) p. (min mn (g p), max mx (g p))) (a, b) ps =
     (Min (insert (a::int) (g ` set ps)), Max (insert (b::int) (g ` set ps)))"
proof (induction ps arbitrary: a b)
  case Nil
  show ?case by simp
next
  case (Cons p ps)
  show ?case
    by (simp add: Cons.IH Min_insert_min Max_insert_max)
qed

lemma Min_drop_limit:
  "finite S \<Longrightarrow> S \<noteq> {} \<Longrightarrow> \<forall>v\<in>S. v \<le> a \<Longrightarrow> Min (insert (a::int) S) = Min S"
  by (simp add: min_absorb2)

lemma Max_drop_limit:
  "finite S \<Longrightarrow> S \<noteq> {} \<Longrightarrow> \<forall>v\<in>S. a \<le> v \<Longrightarrow> Max (insert (a::int) S) = Max S"
  by (simp add: max_absorb2)

lemma project_interval:
  assumes "ps \<noteq> []" and "\<forall>p\<in>set ps. fits (Vec_mul normal (toVec p))"
  shows "project normal ps = interval normal ps"
proof -
  let ?g = "\<lambda>p. Vec_mul normal (toVec p)"
  have "project normal ps = (Min (insert INT_MAX (?g ` set ps)), Max (insert INT_MIN (?g ` set ps)))"
    using foldl_min_max [of ?g INT_MAX INT_MIN ps] by (simp add: project_def Let_def)
  moreover have "Min (insert INT_MAX (?g ` set ps)) = Min (?g ` set ps)"
    using assms by (intro Min_drop_limit) (auto simp: fits_def)
  moreover have "Max (insert INT_MIN (?g ` set ps)) = Max (?g ` set ps)"
    using assms by (intro Max_drop_limit) (auto simp: fits_def)
  ultimately show ?thesis by (simp add: interval_def)
qed

lemma foldl_bbox:
  "foldl (\<lambda>(x1, y1, x2, y2) p. (min x1 (f p), min y1 (g p), max x2 (f p), max y2 (g p)))
     (a, b, c, d) ps =
   (Min (insert (a::int) (f ` set ps)), Min (insert (b::int) (g ` set ps)),
    Max (insert (c::int) (f ` set ps)), Max (insert (d::int) (g ` set ps)))"
proof (induction ps arbitrary: a b c d)
  case Nil
  show ?case by simp
next
  case (Cons p ps)
  show ?case
    by (simp add: Cons.IH Min_insert_min Max_insert_max)
qed

lemma roi_bbox_Min_Max:
  assumes "roi \<noteq> []" and "\<forall>p\<in>set roi. fits (Point.x p) \<and> fits (Point.y p)"
  shows "roi_bbox roi =
    (Min (Point.x ` set roi), Min (Point.y ` set roi),
     Max (Point.x ` set roi), Max (Point.y ` set roi))"
proof -
  have "Min (insert INT_MAX (Point.x ` set roi)) = Min (Point.x ` set roi)"
    using assms by (intro Min_drop_limit) (auto simp: fits_def)
  moreover have "Min (insert INT_MAX (Point.y ` set roi)) = Min (Point.y ` set roi)"
    using assms by (intro Min_drop_limit) (auto simp: fits_def)
  moreover have "Max (insert INT_MIN (Point.x ` set roi)) = Max (Point.x ` set roi)"
    using assms by (intro Max_drop_limit) (auto simp: fits_def)
  moreover have "Max (insert INT_MIN (Point.y ` set roi)) = Max (Point.y ` set roi)"
    using assms by (intro Max_drop_limit) (auto simp: fits_def)
  ultimately show ?thesis
    by (simp add: roi_bbox_def foldl_bbox)
qed

lemma sat_loop_exit:
  "sat_loop roi rec_points i = Some out \<Longrightarrow>
   stdout out = [] \<and> exit_at out \<noteq> BoxesDisjoint \<and> exit_at out \<noteq> RoiTooSmall \<and>
   (retval out \<longleftrightarrow> exit_at out = NoSeparatingAxis)"
proof (induction roi rec_points i rule: sat_loop.induct)
  case (1 roi rec_points i)
  show ?case
  proof (cases "i < project_cnt roi")
    case False
    then show ?thesis using 1(2) by (auto simp: sat_loop_done)
  next
    case True
    then obtain a where a: "axis roi rec_points i = Some a"
      using 1(2) by (subst (asm) sat_loop.simps) (auto split: option.splits)
    show ?thesis
      using 1(1) [OF True a] 1(2) True a by (auto simp: sat_loop_step split: if_splits)
  qed
qed

lemmas evaluation =
  collision_detect_def boxes_disjoint_def roi_bbox_def INT_MAX_def INT_MIN_def
  rect_to_points_def sat_loop.simps project_cnt_def axis_def edge_points_def at_def
  separating_def project_def Normal_def Point_minus_def toVec_def Vec_mul_def

section \<open>The rectangle as a polygon\<close>

text \<open>
  C8: for every rectangle whose fields and whose two sums \<open>left + width\<close> and
  \<open>top + height\<close> are \<^verbatim>\<open>int\<close> values (so that the additions of the function do not
  overflow), \<open>rect_to_points\<close> returns the four corners top-left, top-right, bottom-right,
  bottom-left, in this order, each of them an \<^verbatim>\<open>int\<close> pair; the function has no branch and
  no failure mode.
\<close>

theorem rect_to_points_corners:
  assumes "fits l" and "fits t" and "fits w" and "fits h"
    and "fits (l + w)" and "fits (t + h)"
  shows "rect_to_points \<lparr>left = l, top = t, width = w, height = h\<rparr> =
           [Point l t, Point (l + w) t, Point (l + w) (t + h), Point l (t + h)] \<and>
         list_all (\<lambda>p. fits (Point.x p) \<and> fits (Point.y p))
           (rect_to_points \<lparr>left = l, top = t, width = w, height = h\<rparr>)"
  using assms by (simp add: rect_to_points_def)

theorem rect_to_points_corners_witness:
  "fits 180 \<and> fits 100 \<and> fits 50 \<and> fits (180 + 50) \<and> fits (100 + 50) \<and>
   rect_to_points rect4 = [Point 180 100, Point 230 100, Point 230 150, Point 180 150]"
proof -
  have f: "fits 180" "fits 100" "fits 50" "fits (180 + 50)" "fits (100 + 50)"
    by (simp_all add: fits_def INT_MIN_def INT_MAX_def)
  show ?thesis
    using f rect_to_points_corners [OF f(1) f(2) f(3) f(3) f(4) f(5)]
    by (simp add: rect4_def)
qed

section \<open>Too few points\<close>

text \<open>
  C6: when the ROI has fewer than 3 points, \<open>collision_detect\<close> prints its diagnostic
  message and returns false through its first return statement, whatever the rectangle
  is: the bounding box and the axis loop are not reached, and no container is read.
\<close>

theorem collision_detect_roi_too_small:
  "length roi < 3 \<Longrightarrow>
   collision_detect roi rect =
     Some \<lparr>stdout = [''roi points must >= 3\<newline>''], exit_at = RoiTooSmall, retval = False\<rparr>"
  by (simp add: collision_detect_def)

theorem collision_detect_roi_too_small_witness:
  "length [Point 200 0, Point 200 200] < 3 \<and>
   collision_detect [Point 200 0, Point 200 200] rect1 =
     Some \<lparr>stdout = [''roi points must >= 3\<newline>''], exit_at = RoiTooSmall, retval = False\<rparr>"
  using collision_detect_roi_too_small [of "[Point 200 0, Point 200 200]" rect1] by simp

section \<open>The four calls of main\<close>

text \<open>
  C5: on the triangle \<open>(200,0), (200,200), (0,200)\<close> the function returns true for
  \<open>rect1\<close> (whose corner \<open>(100,100)\<close> lies on the hypotenuse), false for \<open>rect2\<close> (the
  third axis separates), false for \<open>rect3\<close> (through the bounding-box return), and true
  for \<open>rect4\<close>.
\<close>

theorem collision_detect_main_scenarios:
  "collision_detect main_roi rect1 =
     Some \<lparr>stdout = [], exit_at = NoSeparatingAxis, retval = True\<rparr> \<and>
   collision_detect main_roi rect2 =
     Some \<lparr>stdout = [], exit_at = SeparatingAxis 2, retval = False\<rparr> \<and>
   collision_detect main_roi rect3 =
     Some \<lparr>stdout = [], exit_at = BoxesDisjoint, retval = False\<rparr> \<and>
   collision_detect main_roi rect4 =
     Some \<lparr>stdout = [], exit_at = NoSeparatingAxis, retval = True\<rparr>"
  by (simp add: evaluation main_roi_def rect1_def rect2_def rect3_def rect4_def)

section \<open>The axes of the loop\<close>

text \<open>
  C1 says that the loop takes its last two axes from the first two edges of the rectangle.
  On the triangle and the first rectangle of \<open>main\<close> the five axes of the loop are the
  three normals of the triangle and then twice \<open>(0, 100)\<close>, the normal of the rectangle's
  edge from vertex 2 to vertex 3; the axes the specification lists end with \<open>(0, -100)\<close>
  and \<open>(100, 0)\<close>. The horizontal axis \<open>(100, 0)\<close> is not among the axes of the loop.
\<close>

theorem loop_axes_of_main_roi_rect1:
  "map (axis main_roi (rect_to_points rect1)) [0..<project_cnt main_roi] =
     [Some (Vec 200 0), Some (Vec 0 200), Some (Vec (- 200) (- 200)),
      Some (Vec 0 100), Some (Vec 0 100)] \<and>
   candidate_axes main_roi rect1 =
     [Vec 200 0, Vec 0 200, Vec (- 200) (- 200), Vec 0 (- 100), Vec 100 0]"
  by (simp add: evaluation candidate_axes_def main_roi_def rect1_def upt_rec)

text \<open>The last two iterations and the last but one agree, so the last one changes nothing.\<close>

lemma sat_loop_last_two:
  "sat_loop roi rec_points (length roi) = sat_loop_short roi rec_points (length roi)"
proof (cases "axis roi rec_points (length roi)")
  case None
  then show ?thesis
    by (subst sat_loop.simps, subst sat_loop_short.simps) (simp add: project_cnt_def)
next
  case (Some a)
  have next_axis: "axis roi rec_points (Suc (length roi)) = Some a"
    using Some axis_same_past_roi [of "Suc (length roi)" roi "length roi" rec_points] by simp
  show ?thesis
  proof (cases "separating a roi rec_points")
    case True
    then show ?thesis using Some
      by (subst sat_loop.simps, subst sat_loop_short.simps) (simp add: project_cnt_def)
  next
    case False
    have "sat_loop roi rec_points (Suc (Suc (length roi))) =
          Some \<lparr>stdout = [], exit_at = NoSeparatingAxis, retval = True\<rparr>"
      by (rule sat_loop_done) (simp add: project_cnt_def)
    then have "sat_loop roi rec_points (Suc (length roi)) =
          Some \<lparr>stdout = [], exit_at = NoSeparatingAxis, retval = True\<rparr>"
      using False next_axis sat_loop_step [of "Suc (length roi)" roi rec_points a]
      by (simp add: project_cnt_def)
    moreover have "sat_loop_short roi rec_points (Suc (length roi)) =
          Some \<lparr>stdout = [], exit_at = NoSeparatingAxis, retval = True\<rparr>"
      by (subst sat_loop_short.simps) (simp add: project_cnt_def)
    ultimately show ?thesis using Some False
      by (subst sat_loop.simps, subst sat_loop_short.simps) (simp add: project_cnt_def)
  qed
qed

lemma sat_loop_short_eq:
  "i \<le> length roi \<Longrightarrow> sat_loop roi rec_points i = sat_loop_short roi rec_points i"
proof (induction rule: inc_induct)
  case base
  show ?case by (rule sat_loop_last_two)
next
  case (step k)
  then show ?case
    by (subst sat_loop.simps, subst sat_loop_short.simps)
       (simp add: project_cnt_def split: option.splits)
qed

text \<open>
  C9: in both iterations that follow the ROI edges, \<open>i = n\<close> and \<open>i = n + 1\<close>, the index
  \<open>idx\<close> is \<open>project_cnt - n = 2\<close>, so both take the normal of the rectangle's edge from
  vertex 2 to vertex 3 as their axis; and for every input the function with the final
  iteration dropped returns what the function returns.
\<close>

theorem last_iteration_repeats:
  "project_cnt roi - length roi = 2 \<and>
   axis roi (rect_to_points rect) (length roi) =
     Some (Normal (Point_minus (rect_to_points rect ! 3) (rect_to_points rect ! 2))) \<and>
   axis roi (rect_to_points rect) (length roi + 1) =
     Some (Normal (Point_minus (rect_to_points rect ! 3) (rect_to_points rect ! 2))) \<and>
   collision_detect_short roi rect = collision_detect roi rect"
  by (simp add: project_cnt_def axis_def edge_points_rect length_rect_to_points
        collision_detect_def collision_detect_short_def sat_loop_short_eq)

theorem last_iteration_repeats_witness:
  "axis main_roi (rect_to_points rect2) 3 = Some (Vec 0 40) \<and>
   axis main_roi (rect_to_points rect2) 4 = Some (Vec 0 40) \<and>
   collision_detect_short main_roi rect2 =
     Some \<lparr>stdout = [], exit_at = SeparatingAxis 2, retval = False\<rparr>"
  using last_iteration_repeats [of main_roi rect2]
  by (simp add: evaluation main_roi_def rect2_def)

section \<open>Container accesses\<close>

lemma sat_loop_total:
  "length rec_points = 4 \<Longrightarrow> \<exists>out. sat_loop roi rec_points i = Some out"
proof (induction roi rec_points i rule: sat_loop.induct)
  case (1 roi rec_points i)
  show ?case
  proof (cases "i < project_cnt roi")
    case False
    then show ?thesis by (simp add: sat_loop_done)
  next
    case True
    obtain a where a: "axis roi rec_points i = Some a"
      using 1(2) by (cases "i < length roi") (simp_all add: axis_def edge_points_roi edge_points_rect)
    show ?thesis
      using 1(1) [OF True a] 1(2) True a by (simp add: sat_loop_step)
  qed
qed

text \<open>
  C10: for an ROI of at least 3 points, every read of a container is in bounds. The
  rectangle has 4 points; iteration \<open>i < n\<close> reads \<open>roi[i]\<close> and \<open>roi[(i + 1) mod n]\<close>, both
  below \<open>n\<close>; every later iteration reads the rectangle's points 2 and 3; and the call as
  a whole ends with a value, so no read of it was out of range.
\<close>

theorem container_accesses_in_bounds:
  "3 \<le> length roi \<Longrightarrow>
   length (rect_to_points rect) = 4 \<and>
   (\<forall>i < project_cnt roi.
      edge_points roi (rect_to_points rect) i =
        (if i < length roi then Some (roi ! i, roi ! ((i + 1) mod length roi))
         else Some (rect_to_points rect ! 2, rect_to_points rect ! 3)) \<and>
      (i < length roi \<longrightarrow> (i + 1) mod length roi < length roi)) \<and>
   (\<exists>out. collision_detect roi rect = Some out)"
  by (simp add: length_rect_to_points edge_points_roi edge_points_rect collision_detect_def
        sat_loop_total next_index)

theorem container_accesses_in_bounds_witness:
  "3 \<le> length main_roi \<and>
   edge_points main_roi (rect_to_points rect1) 2 = Some (Point 0 200, Point 200 0) \<and>
   edge_points main_roi (rect_to_points rect1) 4 = Some (Point 100 100, Point 0 100) \<and>
   (\<exists>out. collision_detect main_roi rect1 = Some out)"
proof -
  have n: "3 \<le> length main_roi"
    by (simp add: main_roi_def)
  show ?thesis
    using n container_accesses_in_bounds [OF n, of rect1]
    by (simp add: main_roi_def rect1_def rect_to_points_def project_cnt_def)
qed

section \<open>The bounding-box return and the loop\<close>

text \<open>
  C3 says that the return after the bounding box never changes the result. On the square
  standing on a corner, which is convex, and the rectangle to the right of it the
  function returns false through the bounding-box return, and without that return it
  returns true: the boxes are apart in \<open>x\<close>, the four diagonal axes of the square do not
  separate (the intervals touch), and the only rectangle axis of the loop is the vertical
  one.
\<close>

theorem prefilter_changes_result:
  "convex_polygon diamond_roi \<and> representable diamond_roi side_rect \<and>
   no_overflow diamond_roi side_rect \<and>
   collision_detect diamond_roi side_rect =
     Some \<lparr>stdout = [], exit_at = BoxesDisjoint, retval = False\<rparr> \<and>
   collision_detect_no_prefilter diamond_roi side_rect =
     Some \<lparr>stdout = [], exit_at = NoSeparatingAxis, retval = True\<rparr>"
  by (simp add: evaluation diamond_roi_def side_rect_def convex_polygon_def turn_def cross_def
        upt_rec collision_detect_no_prefilter_def representable_def no_overflow_def fits_def
        iteration_fits_def Vec_fits_def Vec_mul_fits_def)

section \<open>The bounding box\<close>

text \<open>
  C7: for an ROI of at least 3 points and a rectangle, all of \<^verbatim>\<open>int\<close> values, whose sums
  \<open>left + width\<close> and \<open>top + height\<close> do not overflow, the box \<open>(x1, y1, x2, y2)\<close> that the
  function computes is the coordinatewise minimum and maximum over all ROI vertices, and
  the function leaves through the bounding-box return, with the value false, exactly when
  \<open>left > x2\<close> or \<open>left + width < x1\<close> or \<open>top > y2\<close> or \<open>top + height < y1\<close>.
\<close>

theorem bounding_box_return:
  assumes "3 \<le> length roi" and "representable roi rect"
    and "fits (left rect + width rect)" and "fits (top rect + height rect)"
  shows "roi_bbox roi =
           (Min (Point.x ` set roi), Min (Point.y ` set roi),
            Max (Point.x ` set roi), Max (Point.y ` set roi)) \<and>
         (collision_detect roi rect =
            Some \<lparr>stdout = [], exit_at = BoxesDisjoint, retval = False\<rparr> \<longleftrightarrow>
          left rect > Max (Point.x ` set roi) \<or>
          left rect + width rect < Min (Point.x ` set roi) \<or>
          top rect > Max (Point.y ` set roi) \<or>
          top rect + height rect < Min (Point.y ` set roi))"
proof -
  have ne: "roi \<noteq> []" using assms(1) by auto
  have fit: "\<forall>p\<in>set roi. fits (Point.x p) \<and> fits (Point.y p)"
    using assms(2) by (simp add: representable_def list_all_iff)
  note box = roi_bbox_Min_Max [OF ne fit]
  have n: "\<not> length roi < 3" using assms(1) by simp
  show ?thesis
  proof (cases "boxes_disjoint rect (roi_bbox roi)")
    case True
    then show ?thesis using n box
      by (simp add: collision_detect_def) (simp add: boxes_disjoint_def)
  next
    case False
    then have "collision_detect roi rect = sat_loop roi (rect_to_points rect) 0"
      using n by (simp add: collision_detect_def)
    then show ?thesis using False box sat_loop_exit [of roi "rect_to_points rect" 0]
      by (auto simp: boxes_disjoint_def)
  qed
qed

theorem bounding_box_return_witness:
  "3 \<le> length main_roi \<and> representable main_roi rect3 \<and>
   fits (left rect3 + width rect3) \<and> fits (top rect3 + height rect3) \<and>
   roi_bbox main_roi = (0, 0, 200, 200) \<and>
   collision_detect main_roi rect3 =
     Some \<lparr>stdout = [], exit_at = BoxesDisjoint, retval = False\<rparr> \<and>
   left rect3 > 200"
proof -
  have n: "3 \<le> length main_roi"
    by (simp add: main_roi_def)
  have r: "representable main_roi rect3"
    by (simp add: main_roi_def rect3_def representable_def fits_def INT_MIN_def INT_MAX_def)
  have f: "fits (left rect3 + width rect3)" "fits (top rect3 + height rect3)"
    by (simp_all add: rect3_def fits_def INT_MIN_def INT_MAX_def)
  show ?thesis
    using n r f bounding_box_return [OF n r f]
    by (simp add: main_roi_def rect3_def)
qed

section \<open>Projections and separation\<close>

lemma proj_eq: "proj a p = Vec.x a * Point.x p + Vec.y a * Point.y p"
  by (simp add: proj_def Vec_mul_def toVec_def)

lemma strictly_separates_iff:
  assumes "roi \<noteq> []" and "rec_points \<noteq> []"
  shows "strictly_separates a roi rec_points \<longleftrightarrow>
    (\<forall>r\<in>set rec_points. \<forall>v\<in>set roi. proj a r < proj a v) \<or>
    (\<forall>r\<in>set rec_points. \<forall>v\<in>set roi. proj a v < proj a r)"
  using assms by (auto simp: strictly_separates_def interval_def proj_def)

lemma separating_iff:
  assumes "roi \<noteq> []" and "rec_points \<noteq> []"
    and "\<forall>p\<in>set roi. fits (proj a p)" and "\<forall>p\<in>set rec_points. fits (proj a p)"
  shows "separating a roi rec_points \<longleftrightarrow> strictly_separates a roi rec_points"
  using project_interval [OF assms(1), of a] project_interval [OF assms(2), of a] assms(3,4)
  by (auto simp: separating_def strictly_separates_def proj_def split: prod.splits)

lemma sat_loop_retval:
  "length rec_points = 4 \<Longrightarrow>
   \<exists>out. sat_loop roi rec_points i = Some out \<and> stdout out = [] \<and>
     (retval out \<longleftrightarrow>
        (\<forall>j a. i \<le> j \<and> j < project_cnt roi \<and> axis roi rec_points j = Some a \<longrightarrow>
           \<not> separating a roi rec_points))"
proof (induction roi rec_points i rule: sat_loop.induct)
  case (1 roi rec_points i)
  show ?case
  proof (cases "i < project_cnt roi")
    case False
    then show ?thesis by (auto simp: sat_loop_done)
  next
    case True
    obtain a where a: "axis roi rec_points i = Some a"
      using 1(2) by (cases "i < length roi") (simp_all add: axis_def edge_points_roi edge_points_rect)
    show ?thesis
    proof (cases "separating a roi rec_points")
      case sep: True
      then show ?thesis using True a by (auto simp: sat_loop_step)
    next
      case nosep: False
      obtain out where out: "sat_loop roi rec_points (Suc i) = Some out" "stdout out = []"
        "retval out \<longleftrightarrow>
        (\<forall>j a. Suc i \<le> j \<and> j < project_cnt roi \<and> axis roi rec_points j = Some a \<longrightarrow>
           \<not> separating a roi rec_points)"
        using 1(1) [OF True a nosep 1(2)] by blast
      have "(\<forall>j a. i \<le> j \<and> j < project_cnt roi \<and> axis roi rec_points j = Some a \<longrightarrow>
           \<not> separating a roi rec_points) \<longleftrightarrow> (\<forall>j a. Suc i \<le> j \<and> j < project_cnt roi \<and> axis roi rec_points j = Some a \<longrightarrow>
           \<not> separating a roi rec_points)"
        using a nosep by (metis Suc_leI le_neq_implies_less option.inject Suc_leD)
      then show ?thesis using True a nosep out by (simp add: sat_loop_step)
    qed
  qed
qed

lemma no_overflow_fits:
  assumes "no_overflow roi rect" and "i < project_cnt roi"
    and "axis roi (rect_to_points rect) i = Some a"
  shows "\<forall>p\<in>set (roi @ rect_to_points rect). fits (proj a p)"
proof -
  have "iteration_fits roi (rect_to_points rect) i"
    using assms(1,2) by (simp add: no_overflow_def list_all_iff)
  then show ?thesis using assms(3)
    by (auto simp: iteration_fits_def axis_def Vec_mul_fits_def proj_def list_all_iff
        split: option.splits prod.splits)
qed

lemma loop_axis_separating_iff:
  assumes "no_overflow roi rect" and "i < project_cnt roi" and "roi \<noteq> []"
    and "axis roi (rect_to_points rect) i = Some a"
  shows "separating a roi (rect_to_points rect) \<longleftrightarrow>
    (\<forall>r\<in>set (rect_to_points rect). \<forall>v\<in>set roi. proj a r < proj a v) \<or>
    (\<forall>r\<in>set (rect_to_points rect). \<forall>v\<in>set roi. proj a v < proj a r)"
proof -
  have ne: "rect_to_points rect \<noteq> []" by (simp add: rect_to_points_def)
  have f: "\<forall>p\<in>set roi. fits (proj a p)" "\<forall>p\<in>set (rect_to_points rect). fits (proj a p)"
    using no_overflow_fits [OF assms(1,2,4)] by simp_all
  show ?thesis
    using separating_iff [OF assms(3) ne f] strictly_separates_iff [OF assms(3) ne] by simp
qed

lemma sat_loop_from_0:
  "\<exists>out. sat_loop roi (rect_to_points rect) 0 = Some out \<and> stdout out = [] \<and>
     (retval out \<longleftrightarrow>
        (\<forall>j a. j < project_cnt roi \<and> axis roi (rect_to_points rect) j = Some a \<longrightarrow>
           \<not> separating a roi (rect_to_points rect)))"
  using sat_loop_retval [OF length_rect_to_points, of roi rect 0] by simp

lemma sat_loop_no_separation:
  assumes "\<And>j a. j < project_cnt roi \<Longrightarrow> axis roi (rect_to_points rect) j = Some a \<Longrightarrow>
           \<not> separating a roi (rect_to_points rect)"
  shows "sat_loop roi (rect_to_points rect) 0 =
    Some \<lparr>stdout = [], exit_at = NoSeparatingAxis, retval = True\<rparr>"
proof -
  obtain out where out: "sat_loop roi (rect_to_points rect) 0 = Some out" "stdout out = []"
    "retval out \<longleftrightarrow>
       (\<forall>j a. j < project_cnt roi \<and> axis roi (rect_to_points rect) j = Some a \<longrightarrow>
          \<not> separating a roi (rect_to_points rect))"
    using sat_loop_from_0 [of roi rect] by (elim exE conjE)
  have r: "retval out" unfolding out(3) using assms by (intro allI impI) (elim conjE)
  have "exit_at out = NoSeparatingAxis"
    using sat_loop_exit [OF out(1)] r by simp
  then have "out = \<lparr>stdout = [], exit_at = NoSeparatingAxis, retval = True\<rparr>"
    using out(2) r by (cases out) simp
  then show ?thesis using out(1) by simp
qed

section \<open>Shapes with a common point\<close>

lemma weighted_Nil [simp]: "weighted f [] [] = 0"
  by (simp add: weighted_def)

lemma weighted_Cons [simp]:
  "weighted f (w # ws) (p # ps) = int w * f p + weighted f ws ps"
  by (simp add: weighted_def)

lemma weighted_lower:
  "length ws = length ps \<Longrightarrow> \<forall>p\<in>set ps. lo \<le> f p \<Longrightarrow>
   lo * int (sum_list ws) \<le> weighted f ws ps"
proof (induction ws ps rule: list_induct2)
  case Nil
  show ?case by simp
next
  case (Cons w ws p ps)
  have "lo * int w \<le> f p * int w"
    using Cons.prems by (intro mult_right_mono) simp_all
  moreover have "lo * int (sum_list ws) \<le> weighted f ws ps"
    using Cons by simp
  ultimately show ?case
    by (simp add: algebra_simps)
qed

lemma weighted_upper:
  "length ws = length ps \<Longrightarrow> \<forall>p\<in>set ps. f p \<le> hi \<Longrightarrow>
   weighted f ws ps \<le> hi * int (sum_list ws)"
proof (induction ws ps rule: list_induct2)
  case Nil
  show ?case by simp
next
  case (Cons w ws p ps)
  have "f p * int w \<le> hi * int w"
    using Cons.prems by (intro mult_right_mono) simp_all
  moreover have "weighted f ws ps \<le> hi * int (sum_list ws)"
    using Cons by simp
  ultimately show ?case
    by (simp add: algebra_simps)
qed

lemma weighted_proj:
  "length ws = length ps \<Longrightarrow>
   weighted (proj a) ws ps =
     Vec.x a * weighted Point.x ws ps + Vec.y a * weighted Point.y ws ps"
  by (induction ws ps rule: list_induct2) (simp_all add: proj_eq algebra_simps)

lemma scale_upper:
  assumes "lo \<le> (v::int)" and "v \<le> hi"
  shows "\<exists>c\<in>{lo, hi}. k * v \<le> k * c"
proof (cases "0 \<le> k")
  case True
  then have "k * v \<le> k * hi" using assms(2) by (intro mult_left_mono)
  then show ?thesis by blast
next
  case False
  then have "k * v \<le> k * lo" using assms(1) by (intro mult_left_mono_neg) simp_all
  then show ?thesis by blast
qed

lemma scale_lower:
  assumes "lo \<le> (v::int)" and "v \<le> hi"
  shows "\<exists>c\<in>{lo, hi}. k * c \<le> k * v"
proof (cases "0 \<le> k")
  case True
  then have "k * lo \<le> k * v" using assms(1) by (intro mult_left_mono)
  then show ?thesis by blast
next
  case False
  then have "k * hi \<le> k * v" using assms(2) by (intro mult_left_mono_neg) simp_all
  then show ?thesis by blast
qed

lemma corner_in_rect:
  "cx \<in> {left rect, left rect + width rect} \<Longrightarrow> cy \<in> {top rect, top rect + height rect} \<Longrightarrow>
   Point cx cy \<in> set (rect_to_points rect)"
  by (auto simp: rect_to_points_def)

lemma rect_upper_corner:
  assumes "left rect * W \<le> X" "X \<le> (left rect + width rect) * W"
    and "top rect * W \<le> Y" "Y \<le> (top rect + height rect) * W"
  shows "\<exists>r\<in>set (rect_to_points rect). Vec.x a * X + Vec.y a * Y \<le> proj a r * W"
proof -
  obtain cx where cx: "cx \<in> {left rect * W, (left rect + width rect) * W}"
      "Vec.x a * X \<le> Vec.x a * cx"
    using scale_upper [OF assms(1,2), of "Vec.x a"] by blast
  obtain cy where cy: "cy \<in> {top rect * W, (top rect + height rect) * W}"
      "Vec.y a * Y \<le> Vec.y a * cy"
    using scale_upper [OF assms(3,4), of "Vec.y a"] by blast
  from cx(1) obtain px where px: "px \<in> {left rect, left rect + width rect}" "cx = px * W"
    by auto
  from cy(1) obtain py where py: "py \<in> {top rect, top rect + height rect}" "cy = py * W"
    by auto
  have "Vec.x a * X + Vec.y a * Y \<le> proj a (Point px py) * W"
    using cx(2) cy(2) px(2) py(2) by (simp add: proj_eq algebra_simps)
  then show ?thesis using corner_in_rect [OF px(1) py(1)] by blast
qed

lemma rect_lower_corner:
  assumes "left rect * W \<le> X" "X \<le> (left rect + width rect) * W"
    and "top rect * W \<le> Y" "Y \<le> (top rect + height rect) * W"
  shows "\<exists>r\<in>set (rect_to_points rect). proj a r * W \<le> Vec.x a * X + Vec.y a * Y"
proof -
  obtain cx where cx: "cx \<in> {left rect * W, (left rect + width rect) * W}"
      "Vec.x a * cx \<le> Vec.x a * X"
    using scale_lower [OF assms(1,2), of "Vec.x a"] by blast
  obtain cy where cy: "cy \<in> {top rect * W, (top rect + height rect) * W}"
      "Vec.y a * cy \<le> Vec.y a * Y"
    using scale_lower [OF assms(3,4), of "Vec.y a"] by blast
  from cx(1) obtain px where px: "px \<in> {left rect, left rect + width rect}" "cx = px * W"
    by auto
  from cy(1) obtain py where py: "py \<in> {top rect, top rect + height rect}" "cy = py * W"
    by auto
  have "proj a (Point px py) * W \<le> Vec.x a * X + Vec.y a * Y"
    using cx(2) cy(2) px(2) py(2) by (simp add: proj_eq algebra_simps)
  then show ?thesis using corner_in_rect [OF px(1) py(1)] by blast
qed

text \<open>No axis at all separates two shapes with a common point.\<close>

lemma common_point_not_separated:
  assumes "common_point ws roi rect"
  shows "\<not> ((\<forall>r\<in>set (rect_to_points rect). \<forall>v\<in>set roi. proj a r < proj a v) \<or>
            (\<forall>r\<in>set (rect_to_points rect). \<forall>v\<in>set roi. proj a v < proj a r))"
proof -
  let ?W = "int (sum_list ws)"
  let ?X = "weighted Point.x ws roi"
  let ?Y = "weighted Point.y ws roi"
  have len: "length ws = length roi" and W: "0 < ?W"
    and b: "left rect * ?W \<le> ?X" "?X \<le> (left rect + width rect) * ?W"
      "top rect * ?W \<le> ?Y" "?Y \<le> (top rect + height rect) * ?W"
    using assms by (simp_all add: common_point_def)
  have P: "weighted (proj a) ws roi = Vec.x a * ?X + Vec.y a * ?Y"
    by (rule weighted_proj [OF len])
  have "\<not> (\<forall>r\<in>set (rect_to_points rect). \<forall>v\<in>set roi. proj a r < proj a v)"
  proof
    assume sep: "\<forall>r\<in>set (rect_to_points rect). \<forall>v\<in>set roi. proj a r < proj a v"
    obtain r where r: "r \<in> set (rect_to_points rect)" "Vec.x a * ?X + Vec.y a * ?Y \<le> proj a r * ?W"
      using rect_upper_corner [OF b] by blast
    have "\<forall>v\<in>set roi. proj a r + 1 \<le> proj a v"
      using sep r(1) by force
    then have "(proj a r + 1) * ?W \<le> weighted (proj a) ws roi"
      by (rule weighted_lower [OF len])
    then show False using r(2) P W by (simp add: algebra_simps)
  qed
  moreover have "\<not> (\<forall>r\<in>set (rect_to_points rect). \<forall>v\<in>set roi. proj a v < proj a r)"
  proof
    assume sep: "\<forall>r\<in>set (rect_to_points rect). \<forall>v\<in>set roi. proj a v < proj a r"
    obtain r where r: "r \<in> set (rect_to_points rect)" "proj a r * ?W \<le> Vec.x a * ?X + Vec.y a * ?Y"
      using rect_lower_corner [OF b] by blast
    have "\<forall>v\<in>set roi. proj a v \<le> proj a r - 1"
      using sep r(1) by force
    then have "weighted (proj a) ws roi \<le> (proj a r - 1) * ?W"
      by (rule weighted_upper [OF len])
    then show False using r(2) P W by (simp add: algebra_simps)
  qed
  ultimately show ?thesis by blast
qed

lemma common_point_boxes:
  assumes "common_point ws roi rect" and "roi \<noteq> []"
    and "\<forall>p\<in>set roi. fits (Point.x p) \<and> fits (Point.y p)"
  shows "\<not> boxes_disjoint rect (roi_bbox roi)"
proof -
  let ?W = "int (sum_list ws)"
  let ?X = "weighted Point.x ws roi"
  let ?Y = "weighted Point.y ws roi"
  have len: "length ws = length roi" and W: "0 < ?W"
    and b: "left rect * ?W \<le> ?X" "?X \<le> (left rect + width rect) * ?W"
      "top rect * ?W \<le> ?Y" "?Y \<le> (top rect + height rect) * ?W"
    using assms(1) by (simp_all add: common_point_def)
  have x2: "?X \<le> Max (Point.x ` set roi) * ?W"
    using assms(2) by (intro weighted_upper [OF len]) simp
  have x1: "Min (Point.x ` set roi) * ?W \<le> ?X"
    using assms(2) by (intro weighted_lower [OF len]) simp
  have y2: "?Y \<le> Max (Point.y ` set roi) * ?W"
    using assms(2) by (intro weighted_upper [OF len]) simp
  have y1: "Min (Point.y ` set roi) * ?W \<le> ?Y"
    using assms(2) by (intro weighted_lower [OF len]) simp
  have "left rect * ?W \<le> Max (Point.x ` set roi) * ?W"
    using b(1) x2 by linarith
  then have 1: "left rect \<le> Max (Point.x ` set roi)"
    using W by (simp add: mult_le_cancel_right)
  have "Min (Point.x ` set roi) * ?W \<le> (left rect + width rect) * ?W"
    using b(2) x1 by linarith
  then have 2: "Min (Point.x ` set roi) \<le> left rect + width rect"
    using W by (simp add: mult_le_cancel_right)
  have "top rect * ?W \<le> Max (Point.y ` set roi) * ?W"
    using b(3) y2 by linarith
  then have 3: "top rect \<le> Max (Point.y ` set roi)"
    using W by (simp add: mult_le_cancel_right)
  have "Min (Point.y ` set roi) * ?W \<le> (top rect + height rect) * ?W"
    using b(4) y1 by linarith
  then have 4: "Min (Point.y ` set roi) \<le> top rect + height rect"
    using W by (simp add: mult_le_cancel_right)
  show ?thesis
    using 1 2 3 4 by (simp add: roi_bbox_Min_Max [OF assms(2,3)] boxes_disjoint_def)
qed

lemma project_ordered:
  assumes "ps \<noteq> []"
  shows "fst (project a ps) \<le> snd (project a ps)"
proof -
  let ?g = "\<lambda>p. Vec_mul a (toVec p)"
  obtain p where p: "p \<in> set ps" using assms by (cases ps) auto
  have "project a ps = (Min (insert INT_MAX (?g ` set ps)), Max (insert INT_MIN (?g ` set ps)))"
    using foldl_min_max [of ?g INT_MAX INT_MIN ps] by (simp add: project_def Let_def)
  moreover have "Min (insert INT_MAX (?g ` set ps)) \<le> ?g p"
    using p by (intro Min_le) auto
  moreover have "?g p \<le> Max (insert INT_MIN (?g ` set ps))"
    using p by (intro Max_ge) auto
  ultimately show ?thesis by simp
qed

lemma touching_not_separating:
  assumes "roi \<noteq> []" and "rec_points \<noteq> []"
    and "snd (project a rec_points) = fst (project a roi) \<or>
         fst (project a rec_points) = snd (project a roi)"
  shows "\<not> separating a roi rec_points"
  using project_ordered [OF assms(1), of a] project_ordered [OF assms(2), of a] assms(3)
  by (auto simp: separating_def split: prod.splits)

lemma common_point_collision:
  assumes "3 \<le> length roi" and "representable roi rect" and "no_overflow roi rect"
    and "common_point ws roi rect"
  shows "collision_detect roi rect =
    Some \<lparr>stdout = [], exit_at = NoSeparatingAxis, retval = True\<rparr>"
proof -
  have ne: "roi \<noteq> []" using assms(1) by auto
  have fit: "\<forall>p\<in>set roi. fits (Point.x p) \<and> fits (Point.y p)"
    using assms(2) by (simp add: representable_def list_all_iff)
  have "\<not> boxes_disjoint rect (roi_bbox roi)"
    by (rule common_point_boxes [OF assms(4) ne fit])
  then have cd: "collision_detect roi rect = sat_loop roi (rect_to_points rect) 0"
    using assms(1) by (simp add: collision_detect_def)
  have "\<not> separating a roi (rect_to_points rect)"
    if "j < project_cnt roi" "axis roi (rect_to_points rect) j = Some a" for j a
    unfolding loop_axis_separating_iff [OF assms(3) that(1) ne that(2)]
    by (rule common_point_not_separated [OF assms(4)])
  then show ?thesis unfolding cd by (rule sat_loop_no_separation)
qed

text \<open>
  C4: the test of an iteration uses strict inequalities only, so an axis on which the two
  projection intervals merely touch (the maximum of one is the minimum of the other) does
  not separate; and whenever the closed rectangle and the closed ROI have a point in
  common, in particular when they only touch at an edge or at a vertex, the function
  returns true. (The run is assumed free of overflow.)
\<close>

theorem touching_counts_as_collision:
  "(roi \<noteq> [] \<and> rec_points \<noteq> [] \<and>
    (snd (project normal rec_points) = fst (project normal roi) \<or>
     fst (project normal rec_points) = snd (project normal roi)) \<longrightarrow>
    \<not> separating normal roi rec_points) \<and>
   (3 \<le> length roi \<and> representable roi rect \<and> no_overflow roi rect \<and>
    common_point ws roi rect \<longrightarrow>
    collision_detect roi rect =
      Some \<lparr>stdout = [], exit_at = NoSeparatingAxis, retval = True\<rparr>)"
  using touching_not_separating [of roi rec_points normal]
    common_point_collision [of roi rect ws] by blast

lemma rect1_on_hypotenuse_axis: "project (Vec (- 200) (- 200)) (rect_to_points rect1) = (-40000, 0)"
  by (simp add: project_def rect_to_points_def rect1_def Vec_mul_def toVec_def INT_MAX_def INT_MIN_def)
lemma main_roi_on_hypotenuse_axis: "project (Vec (- 200) (- 200)) main_roi = (-80000, -40000)"
  by (simp add: project_def main_roi_def Vec_mul_def toVec_def INT_MAX_def INT_MIN_def)
lemma representable_main_roi_rect1: "representable main_roi rect1"
  by (simp add: main_roi_def rect1_def representable_def fits_def INT_MAX_def INT_MIN_def)
lemma common_point_main_roi_rect1: "common_point [1, 0, 1] main_roi rect1"
  by (simp add: main_roi_def rect1_def common_point_def weighted_def)
lemma no_overflow_main_roi_rect1: "no_overflow main_roi rect1"
  by (simp add: no_overflow_def iteration_fits_def project_cnt_def edge_points_def at_def upt_rec
     main_roi_def rect1_def rect_to_points_def Vec_fits_def Vec_mul_fits_def Vec_mul_def toVec_def
     Normal_def Point_minus_def fits_def INT_MAX_def INT_MIN_def)

text \<open>The triangle and the first rectangle of \<open>main\<close> meet in the point \<open>(100, 100)\<close> only.\<close>

theorem touching_counts_as_collision_witness:
  "main_roi \<noteq> [] \<and> rect_to_points rect1 \<noteq> [] \<and>
   fst (project (Vec (- 200) (- 200)) (rect_to_points rect1)) =
     snd (project (Vec (- 200) (- 200)) main_roi) \<and>
   \<not> separating (Vec (- 200) (- 200)) main_roi (rect_to_points rect1) \<and>
   3 \<le> length main_roi \<and> representable main_roi rect1 \<and> no_overflow main_roi rect1 \<and>
   common_point [1, 0, 1] main_roi rect1 \<and>
   collision_detect main_roi rect1 =
     Some \<lparr>stdout = [], exit_at = NoSeparatingAxis, retval = True\<rparr>"
proof -
  have a: "main_roi \<noteq> []" "rect_to_points rect1 \<noteq> []" "3 \<le> length main_roi"
    by (simp_all add: main_roi_def rect_to_points_def)
  have b: "fst (project (Vec (- 200) (- 200)) (rect_to_points rect1)) =
     snd (project (Vec (- 200) (- 200)) main_roi)"
    by (simp add: rect1_on_hypotenuse_axis main_roi_on_hypotenuse_axis)
  note c = touching_counts_as_collision [of main_roi "rect_to_points rect1" "Vec (- 200) (- 200)" rect1 "[1, 0, 1]"]
  have "\<not> separating (Vec (- 200) (- 200)) main_roi (rect_to_points rect1)"
    using c a(1,2) b by simp
  moreover have "collision_detect main_roi rect1 =
     Some \<lparr>stdout = [], exit_at = NoSeparatingAxis, retval = True\<rparr>"
    using c a(3) representable_main_roi_rect1 no_overflow_main_roi_rect1 common_point_main_roi_rect1 by simp
  ultimately show ?thesis
    using a b representable_main_roi_rect1 no_overflow_main_roi_rect1 common_point_main_roi_rect1 by simp
qed


section \<open>Turning around a point outside the bounding box\<close>

text \<open>
  The rest of the development shows that the function decides exactly what the
  specification's candidate axes decide. The loop lacks the horizontal rectangle axis, but
  the bounding-box return makes up for it; what remains is the rectangle of width or
  height 0, one of whose axes is the zero vector. Such a rectangle outside the bounding
  box of a convex polygon is separated from it by the normal of an ROI edge.
\<close>




















section \<open>Rectangles of width or height 0\<close>


lemma proj_unit [simp]:
  "proj (Vec 1 0) p = Point.x p" "proj (Vec (- 1) 0) p = - Point.x p"
  "proj (Vec 0 1) p = Point.y p" "proj (Vec 0 (- 1)) p = - Point.y p"
  by (simp_all add: proj_eq)

lemma across_unit [simp]:
  "across (Vec 1 0) p = Point.y p" "across (Vec (- 1) 0) p = - Point.y p"
  "across (Vec 0 1) p = - Point.x p" "across (Vec 0 (- 1)) p = Point.x p"
  by (simp_all add: across_def cross_def toVec_def)

lemma Vec_mul_unit [simp]:
  "Vec_mul (Vec 1 0) (Vec 1 0) = 1" "Vec_mul (Vec (- 1) 0) (Vec (- 1) 0) = 1"
  "Vec_mul (Vec 0 1) (Vec 0 1) = 1" "Vec_mul (Vec 0 (- 1)) (Vec 0 (- 1)) = 1"
  by (simp_all add: Vec_mul_def)
































section \<open>The result and the candidate axes\<close>








end
